theory Spec2Isabelle
  imports Main "HOL-Library.AList"
begin

section \<open>JavaScript values, objects, arrays and promises\<close>

text \<open>
  The module under verification is \<^verbatim>\<open>src/filesystem/impls/node/node/NodeFileSystemDomain.js\<close>.
  It runs on one thread; every callback runs to completion before the next one starts, so
  each command is a function from the state it finds to the state it leaves.

  An error object is its kind (a plain \<^verbatim>\<open>Error\<close> of the system, or a \<^verbatim>\<open>TypeError\<close> of
  the language) and its message. A call that may throw, and a promise that has settled,
  are both a sum: \<open>Inl err\<close> is the exception thrown (the rejection reason), \<open>Inr v\<close>
  the value returned (the fulfilment value).
\<close>

datatype error = Error (message: string) | TypeError (message: string)

text \<open>
  Calling a value that is not a function: \<^verbatim>\<open>TypeError: f is not a function\<close>. The wording of
  the message is the engine's.
\<close>

definition not_a_function :: "string \<Rightarrow> error" where
  "not_a_function what = TypeError (what @ '' is not a function'')"

type_synonym 'a completion = "error + 'a"

type_synonym 'a promise = "error + 'a"

datatype jsval = JUndefined | JBool bool | JNum int | JStr string

text \<open>
  The own properties of an object, in the order of their insertion. Among them,
  \<^term>\<open>map_of obj k\<close> reads the property \<open>k\<close>, \<^term>\<open>AList.update k v obj\<close> writes it (in
  place for an existing key, at the end for a new one) and \<^term>\<open>AList.delete k obj\<close> is
  \<^verbatim>\<open>delete obj[k]\<close>, which removes an own property and nothing else.
  What an expression on the object does beyond its own properties (a read through the
  prototype chain, the call of a method that an own property can shadow, a write to
  \<^verbatim>\<open>"__proto__"\<close>, the order of \<^verbatim>\<open>for (k in obj)\<close>) is written out below, where the
  module has such an expression.
\<close>

type_synonym 'v jsobject = "(string \<times> 'v) list"

text \<open>
  \<^verbatim>\<open>Object.prototype.hasOwnProperty\<close> applied to the object: whether \<open>k\<close> is an own
  property. The built-in function itself does not throw; calling it as
  \<^verbatim>\<open>obj.hasOwnProperty(k)\<close> first has to find it, which is \<open>call_hasOwnProperty\<close> below.
\<close>

definition hasOwnProperty :: "'v jsobject \<Rightarrow> string \<Rightarrow> bool" where
  "hasOwnProperty obj k = (k \<in> set (map fst obj))"

text \<open>
  \<^verbatim>\<open>obj.hasOwnProperty(k)\<close> on an object whose own properties all hold objects that are
  not functions, and whose prototype chain ends in \<^verbatim>\<open>Object.prototype\<close> with nothing
  in between that is called \<^verbatim>\<open>hasOwnProperty\<close>: an own property of that name shadows the
  built-in function, and calling its value throws.
\<close>

definition call_hasOwnProperty :: "'v jsobject \<Rightarrow> string \<Rightarrow> bool completion" where
  "call_hasOwnProperty obj k =
     (if hasOwnProperty obj ''hasOwnProperty''
      then Inl (not_a_function ''_watcherMap.hasOwnProperty'')
      else Inr (hasOwnProperty obj k))"

text \<open>The names of the members of \<^verbatim>\<open>Object.prototype\<close>, which every plain object inherits.\<close>

definition Object_prototype_names :: "string list" where
  "Object_prototype_names =
     [''constructor'', ''toString'', ''toLocaleString'', ''valueOf'', ''hasOwnProperty'',
      ''isPrototypeOf'', ''propertyIsEnumerable'', ''__defineGetter__'', ''__defineSetter__'',
      ''__lookupGetter__'', ''__lookupSetter__'', ''__proto__'']"

text \<open>
  \<^verbatim>\<open>for (k in obj)\<close> visits the own keys that are array indices first (the decimal
  numerals below \<open>2\<^sup>3\<^sup>2 - 1\<close> without a leading zero), in ascending order, and then the
  other keys in the order of their insertion.
\<close>

definition is_digit :: "char \<Rightarrow> bool" where
  "is_digit c = (48 \<le> (of_char c :: nat) \<and> (of_char c :: nat) \<le> 57)"

definition decimal :: "string \<Rightarrow> nat" where
  "decimal ds = foldl (\<lambda>n c. 10 * n + (of_char c - 48)) 0 ds"

definition is_array_index :: "string \<Rightarrow> bool" where
  "is_array_index k =
     (k \<noteq> [] \<and> list_all is_digit k \<and> (length k = 1 \<or> hd k \<noteq> CHR ''0'') \<and>
      decimal k < 4294967295)"

definition for_in_keys :: "'v jsobject \<Rightarrow> string list" where
  "for_in_keys obj =
     sort_key decimal (filter is_array_index (map fst obj)) @
     filter (\<lambda>k. \<not> is_array_index k) (map fst obj)"

text \<open>\<^verbatim>\<open>Array.prototype.join\<close> with an explicit separator, on an array of strings.\<close>

fun join :: "string list \<Rightarrow> string \<Rightarrow> string" where
  "join [] sep = []"
| "join [x] sep = x"
| "join (x # y # ys) sep = x @ sep @ join (y # ys) sep"

text \<open>
  \<^verbatim>\<open>Array.prototype.reduce(callback, initialValue)\<close>: the callback receives the
  accumulator, the element and the element's index.
\<close>

primrec reduce_from :: "('b \<Rightarrow> 'a \<Rightarrow> nat \<Rightarrow> 'b) \<Rightarrow> nat \<Rightarrow> 'a list \<Rightarrow> 'b \<Rightarrow> 'b" where
  "reduce_from f i [] acc = acc"
| "reduce_from f i (x # xs) acc = reduce_from f (Suc i) xs (f acc x i)"

definition reduce :: "('b \<Rightarrow> 'a \<Rightarrow> nat \<Rightarrow> 'b) \<Rightarrow> 'a list \<Rightarrow> 'b \<Rightarrow> 'b" where
  "reduce f xs initialValue = reduce_from f 0 xs initialValue"

text \<open>\<^verbatim>\<open>names[index]\<close> on an array of strings: \<^verbatim>\<open>undefined\<close> out of range.\<close>

definition at_index :: "string list \<Rightarrow> nat \<Rightarrow> jsval" where
  "at_index names i = (if i < length names then JStr (names ! i) else JUndefined)"

text \<open>
  \<^verbatim>\<open>Promise.settle\<close> waits for every promise and yields their inspectors in the order
  of the input array; an inspector is the settled outcome.
\<close>

definition settle :: "'a promise list \<Rightarrow> 'a promise list" where
  "settle promises = promises"

definition isFulfilled :: "'a promise \<Rightarrow> bool" where
  "isFulfilled inspector = (case inspector of Inr _ \<Rightarrow> True | Inl _ \<Rightarrow> False)"

text \<open>
  \<^verbatim>\<open>Promise.join(a, b)\<close> is fulfilled with both values once both promises are, and is
  rejected as soon as one of them is, with that promise's reason. When both are rejected
  the reason is that of the one which settled first; \<open>bFirst\<close> says whether that is \<open>b\<close>.
\<close>

definition Promise_join :: "bool \<Rightarrow> 'a promise \<Rightarrow> 'b promise \<Rightarrow> ('a \<times> 'b) promise" where
  "Promise_join bFirst a b =
     (case a of
        Inr x \<Rightarrow> (case b of Inr y \<Rightarrow> Inr (x, y) | Inl eb \<Rightarrow> Inl eb)
      | Inl ea \<Rightarrow> (case b of Inr _ \<Rightarrow> Inl ea | Inl eb \<Rightarrow> Inl (if bFirst then eb else ea)))"

section \<open>The operating system as the module sees it\<close>

text \<open>
  \<^verbatim>\<open>fs.Stats\<close>: \<open>mtime\<close> is the modification date as \<^verbatim>\<open>getTime()\<close> reads it
  (milliseconds since the epoch).
\<close>

record stats =
  isDirectory :: bool
  mtime :: int
  size_st :: int

text \<open>
  What the promisified \<^verbatim>\<open>fs\<close> module answers during one command.
  \<open>readFileAsync\<close> is the call with \<^verbatim>\<open>{encoding: "binary"}\<close>: given an encoding, Node's
  \<^verbatim>\<open>fs.readFile\<close> yields a string, and with \<^verbatim>\<open>"binary"\<close> that string has one character
  per byte of the file, the character whose code is the byte. A HOL \<^typ>\<open>char\<close> is a byte,
  so the string is the file's content.
  \<open>watch\<close> says whether \<^verbatim>\<open>fs.watch\<close> returns a watcher or throws, and \<open>watcher_close\<close>
  whether \<^verbatim>\<open>close()\<close> of a watcher throws.
  \<open>watcher_member\<close> describes the watcher objects of this Node: for a property name read
  on a watcher (its own members and those of its prototypes below \<^verbatim>\<open>Object.prototype\<close>),
  \<open>None\<close> when there is no such member or its value is falsy, and \<open>Some r\<close> when the
  value is truthy, \<open>r\<close> being what calling \<^verbatim>\<open>close()\<close> on that value does.
\<close>

record fs =
  readdirAsync :: "string \<Rightarrow> string list promise"
  statAsync :: "string \<Rightarrow> stats promise"
  readFileAsync :: "string \<Rightarrow> string promise"
  statSettlesFirst :: "string \<Rightarrow> bool"
  watch :: "string \<Rightarrow> unit completion"
  watcher_close :: "nat \<Rightarrow> error option"
  watcher_member :: "string \<Rightarrow> unit completion option"

section \<open>Metadata annotator and directory lister\<close>

text \<open>\<^verbatim>\<open>_addStats(obj, stats)\<close>.\<close>

definition addStats :: "jsval jsobject \<Rightarrow> stats \<Rightarrow> jsval jsobject" where
  "addStats obj st =
     AList.update ''size'' (JNum (size_st st))
       (AList.update ''mtime'' (JNum (mtime st))
         (AList.update ''isFile'' (JBool (\<not> isDirectory st)) obj))"

text \<open>
  \<^verbatim>\<open>readdirCmd(path, callback)\<close>; the result is what \<^verbatim>\<open>nodeify\<close> hands to the callback:
  \<open>Inl err\<close> for \<^verbatim>\<open>callback(err)\<close>, \<open>Inr v\<close> for \<^verbatim>\<open>callback(null, v)\<close>.
  In the callback of \<^verbatim>\<open>reduce\<close>, the \<open>Inr\<close> branch is \<^verbatim>\<open>inspector.isFulfilled()\<close>
  with \<open>st\<close> the \<^verbatim>\<open>inspector.value()\<close>, and \<^verbatim>\<open>total.push(x)\<close> appends to the array.
\<close>

definition readdirCmd :: "fs \<Rightarrow> string \<Rightarrow> jsval jsobject list promise" where
  "readdirCmd os path =
     (case readdirAsync os path of
        Inl err \<Rightarrow> Inl err
      | Inr names \<Rightarrow>
          (let statPromises = map (\<lambda>name. statAsync os (join [path, name] [])) names;
               inspectors = settle statPromises
           in Inr (reduce
                     (\<lambda>total inspector index.
                        (case inspector of
                           Inr st \<Rightarrow> total @ [addStats [(''name'', at_index names index)] st]
                         | Inl _ \<Rightarrow> total))
                     inspectors [])))"

section \<open>File reader\<close>

text \<open>
  \<^verbatim>\<open>data.toString(encoding)\<close>, where \<open>data\<close> is the string that \<^verbatim>\<open>readFileAsync\<close> was
  fulfilled with: \<^verbatim>\<open>String.prototype.toString\<close> takes no parameter and returns the string.
\<close>

definition String_toString :: "string \<Rightarrow> string \<Rightarrow> string" where
  "String_toString this encoding = this"

text \<open>\<^verbatim>\<open>readFileCmd(path, encoding, callback)\<close>.\<close>

definition readFileCmd :: "fs \<Rightarrow> string \<Rightarrow> string \<Rightarrow> jsval jsobject promise" where
  "readFileCmd os path encoding =
     (let readPromise = readFileAsync os path;
          statPromise = statAsync os path
      in case Promise_join (statSettlesFirst os path) readPromise statPromise of
           Inl err \<Rightarrow> Inl err
         | Inr (data, st) \<Rightarrow>
             (let filteredData = String_toString data encoding
              in Inr (addStats [(''data'', JStr filteredData)] st)))"

section \<open>Watch registry\<close>

text \<open>
  The watchers that \<^verbatim>\<open>fs.watch\<close> has returned so far are numbered in the order of their
  creation. Of each one the state keeps the \<open>path\<close> that its two listeners close over
  (the change listener and the \<^verbatim>\<open>"error"\<close> listener, both attached in the call that
  creates it) and whether it is still delivering events.
\<close>

datatype wstatus = Active | Closed | Errored

record watcher =
  wpath :: string
  wstatus :: wstatus

datatype logline = Warn string | ErrorLine string

text \<open>
  \<open>watcherMap\<close> holds the own properties of the module's \<^verbatim>\<open>_watcherMap\<close>, which starts as
  \<^verbatim>\<open>{}\<close>. \<open>proto\<close> is the prototype of that object: \<open>None\<close> while it is
  \<^verbatim>\<open>Object.prototype\<close>, and \<open>Some w\<close> once watcher \<open>w\<close> has been stored under
  \<^verbatim>\<open>"__proto__"\<close>. \<open>console\<close> is what has been written with \<^verbatim>\<open>console.warn\<close> and
  \<^verbatim>\<open>console.error\<close>.
\<close>

record state =
  watcherMap :: "nat jsobject"
  proto :: "nat option"
  watchers :: "watcher list"
  console :: "logline list"

definition init_state :: state where
  "init_state = \<lparr>watcherMap = [], proto = None, watchers = [], console = []\<rparr>"

text \<open>
  The value of \<^verbatim>\<open>_watcherMap[path]\<close>, as far as \<^verbatim>\<open>unwatchPath\<close> uses it:
  \<^verbatim>\<open>undefined\<close> (or another falsy value), a watcher, or another truthy value, of which
  only what its \<^verbatim>\<open>close()\<close> does matters.
\<close>

datatype property = Undefined | Watcher nat | Other "unit completion"

text \<open>
  The read \<^verbatim>\<open>_watcherMap[path]\<close>: an own property if there is one, otherwise what the
  prototype chain has. Under \<^verbatim>\<open>Object.prototype\<close> the inherited values are its member
  functions and, for \<^verbatim>\<open>"__proto__"\<close>, \<^verbatim>\<open>Object.prototype\<close> itself: all truthy, none with
  a \<^verbatim>\<open>close\<close> method. Under a watcher, \<^verbatim>\<open>"__proto__"\<close> reads that watcher, and the other
  names find the watcher's members before those of \<^verbatim>\<open>Object.prototype\<close>.
\<close>

definition getProperty :: "fs \<Rightarrow> state \<Rightarrow> string \<Rightarrow> property" where
  "getProperty os s path =
     (case map_of (watcherMap s) path of
        Some w \<Rightarrow> Watcher w
      | None \<Rightarrow>
          (case proto s of
             None \<Rightarrow>
               (if path \<in> set Object_prototype_names
                then Other (Inl (not_a_function ''watcher.close'')) else Undefined)
           | Some pw \<Rightarrow>
               (if path = ''__proto__'' then Watcher pw
                else
                  (case watcher_member os path of
                     Some r \<Rightarrow> Other r
                   | None \<Rightarrow>
                       (if path \<in> set Object_prototype_names
                        then Other (Inl (not_a_function ''watcher.close'')) else Undefined)))))"

text \<open>
  The write \<^verbatim>\<open>_watcherMap[path] = watcher\<close>: \<^verbatim>\<open>"__proto__"\<close>, unless it is an own
  property, is the accessor of \<^verbatim>\<open>Object.prototype\<close>, and writing an object to it replaces
  the prototype; every other name becomes or stays an own property.
\<close>

definition setProperty :: "state \<Rightarrow> string \<Rightarrow> nat \<Rightarrow> state" where
  "setProperty s path w =
     (if path = ''__proto__'' \<and> \<not> hasOwnProperty (watcherMap s) path
      then s\<lparr>proto := Some w\<rparr>
      else s\<lparr>watcherMap := AList.update path w (watcherMap s)\<rparr>)"

text \<open>
  \<^verbatim>\<open>unwatchPath(path)\<close>. A command returns its completion and the state it leaves.
  The test \<^verbatim>\<open>if (watcher)\<close> is on the value read, whether own or inherited.
  A \<^verbatim>\<open>close()\<close> of a watcher that returns leaves the watcher closed; a \<^verbatim>\<open>close()\<close> of
  another value that returns is not recorded (a watcher concerned is kept as still able
  to emit). The \<^verbatim>\<open>finally\<close> block runs on both ways out of the \<^verbatim>\<open>try\<close>.
\<close>

definition unwatchPath :: "fs \<Rightarrow> string \<Rightarrow> state \<Rightarrow> unit completion \<times> state" where
  "unwatchPath os path s =
     (case getProperty os s path of
        Undefined \<Rightarrow> (Inr (), s)
      | Watcher w \<Rightarrow>
          (let s1 = (case watcher_close os w of
                       None \<Rightarrow>
                         s\<lparr>watchers := (watchers s)[w := (watchers s ! w)\<lparr>wstatus := Closed\<rparr>]\<rparr>
                     | Some err \<Rightarrow>
                         s\<lparr>console := console s @
                             [Warn (''Failed to unwatch file '' @ path @ '': '' @ message err)]\<rparr>)
           in (Inr (), s1\<lparr>watcherMap := AList.delete path (watcherMap s1)\<rparr>))
      | Other r \<Rightarrow>
          (let s1 = (case r of
                       Inr _ \<Rightarrow> s
                     | Inl err \<Rightarrow>
                         s\<lparr>console := console s @
                             [Warn (''Failed to unwatch file '' @ path @ '': '' @ message err)]\<rparr>)
           in (Inr (), s1\<lparr>watcherMap := AList.delete path (watcherMap s1)\<rparr>)))"

text \<open>
  \<^verbatim>\<open>watchPath(path)\<close>. The call \<^verbatim>\<open>_watcherMap.hasOwnProperty(path)\<close> stands before the
  \<^verbatim>\<open>try\<close>: what it throws leaves the function.
\<close>

definition watchPath :: "fs \<Rightarrow> string \<Rightarrow> state \<Rightarrow> unit completion \<times> state" where
  "watchPath os path s =
     (case call_hasOwnProperty (watcherMap s) path of
        Inl err \<Rightarrow> (Inl err, s)
      | Inr True \<Rightarrow> (Inr (), s)
      | Inr False \<Rightarrow>
          (case watch os path of
             Inr _ \<Rightarrow>
               (let w = length (watchers s);
                    s1 = s\<lparr>watchers := watchers s @ [\<lparr>wpath = path, wstatus = Active\<rparr>]\<rparr>
                in (Inr (), setProperty s1 path w))
           | Inl err \<Rightarrow>
               (Inr (), s\<lparr>console := console s @
                           [Warn (''Failed to watch file '' @ path @ '': '' @ message err)]\<rparr>)))"

text \<open>
  The \<^verbatim>\<open>"error"\<close> listener that \<^verbatim>\<open>watchPath\<close> attaches, run when watcher \<open>w\<close> emits
  \<^verbatim>\<open>"error"\<close> with \<open>err\<close>. Only a watcher that exists and is still delivering events
  emits one; it delivers none afterwards.
\<close>

definition watcherError :: "fs \<Rightarrow> nat \<Rightarrow> error \<Rightarrow> state \<Rightarrow> unit completion \<times> state" where
  "watcherError os w err s =
     (if w < length (watchers s) \<and> wstatus (watchers s ! w) = Active then
        (let path = wpath (watchers s ! w);
             s1 = s\<lparr>watchers := (watchers s)[w := (watchers s ! w)\<lparr>wstatus := Errored\<rparr>],
                    console := console s @
                      [ErrorLine (''Error watching file '' @ path @ '': '' @ message err)]\<rparr>
         in unwatchPath os path s1)
      else (Inr (), s))"

text \<open>
  \<^verbatim>\<open>unwatchAll()\<close>. \<^verbatim>\<open>for (path in _watcherMap)\<close> visits the own keys the object has
  when the loop starts, in the order of \<open>for_in_keys\<close>, and skips a key deleted before its
  turn. In the body the call \<^verbatim>\<open>_watcherMap.hasOwnProperty(path)\<close> is in no \<^verbatim>\<open>try\<close>: what
  it throws ends the loop and leaves the function. (After the own keys the loop visits
  the enumerable names that the object inherits; none of them is an own property, so the
  body does nothing for them, and a call that throws has thrown at the first own key.)
\<close>

fun unwatchAll_loop :: "fs \<Rightarrow> string list \<Rightarrow> state \<Rightarrow> unit completion \<times> state" where
  "unwatchAll_loop os [] s = (Inr (), s)"
| "unwatchAll_loop os (path # paths) s =
     (if \<not> hasOwnProperty (watcherMap s) path then unwatchAll_loop os paths s
      else
        (case call_hasOwnProperty (watcherMap s) path of
           Inl err \<Rightarrow> (Inl err, s)
         | Inr False \<Rightarrow> unwatchAll_loop os paths s
         | Inr True \<Rightarrow>
             (case unwatchPath os path s of
                (Inl err, s') \<Rightarrow> (Inl err, s')
              | (Inr _, s') \<Rightarrow> unwatchAll_loop os paths s')))"

definition unwatchAll :: "fs \<Rightarrow> state \<Rightarrow> unit completion \<times> state" where
  "unwatchAll os s = unwatchAll_loop os (for_in_keys (watcherMap s)) s"

text \<open>
  What can happen to the registry: the three commands, and an \<^verbatim>\<open>"error"\<close> event of a
  watcher. Each step meets the operating system in its state of that moment.
\<close>

datatype event = WatchPath string | UnwatchPath string | UnwatchAll | WatcherError nat error

fun step :: "fs \<Rightarrow> event \<Rightarrow> state \<Rightarrow> unit completion \<times> state" where
  "step os (WatchPath path) s = watchPath os path s"
| "step os (UnwatchPath path) s = unwatchPath os path s"
| "step os UnwatchAll s = unwatchAll os s"
| "step os (WatcherError w err) s = watcherError os w err s"

fun run :: "(fs \<times> event) list \<Rightarrow> state \<Rightarrow> state" where
  "run [] s = s"
| "run ((os, e) # es) s = run es (snd (step os e s))"

text \<open>
  The registry is consistent when no path has two entries, every entry holds a watcher
  that exists, was created for that path, and is still delivering events, and a watcher
  that has become the prototype exists and is the watcher of no entry.
\<close>

definition consistent :: "state \<Rightarrow> bool" where
  "consistent s =
     (distinct (map fst (watcherMap s)) \<and>
      list_all (\<lambda>(path, w). w < length (watchers s) \<and>
                  watchers s ! w = \<lparr>wpath = path, wstatus = Active\<rparr>) (watcherMap s) \<and>
      (case proto s of
         None \<Rightarrow> True
       | Some pw \<Rightarrow> pw < length (watchers s) \<and> pw \<notin> set (map snd (watcherMap s))))"

text \<open>The entries that the registry holds for a path.\<close>

definition entries_for :: "string \<Rightarrow> state \<Rightarrow> (string \<times> nat) list" where
  "entries_for path s = filter (\<lambda>entry. fst entry = path) (watcherMap s)"

section \<open>A concrete file system\<close>

text \<open>
  The directory \<^verbatim>\<open>/tmp/d\<close> holds the file \<open>a\<close> of 10 bytes and the name \<open>b\<close>, which
  is gone by the time it is statted. The directory can be named with or without its
  trailing separator. Nothing else exists.
\<close>

definition scenario_fs :: fs where
  "scenario_fs =
     \<lparr>readdirAsync = (\<lambda>p. if p = ''/tmp/d'' \<or> p = ''/tmp/d/'' then Inr [''a'', ''b'']
                           else Inl (Error ''ENOENT'')),
      statAsync = (\<lambda>p. if p = ''/tmp/d/a''
                          then Inr \<lparr>isDirectory = False, mtime = 1383436800000, size_st = 10\<rparr>
                        else if p = ''/tmp/d'' \<or> p = ''/tmp/d/''
                          then Inr \<lparr>isDirectory = True, mtime = 1383436800000, size_st = 4096\<rparr>
                        else Inl (Error ''ENOENT'')),
      readFileAsync = (\<lambda>p. if p = ''/tmp/d/a'' then Inr ''0123456789''
                            else if p = ''/tmp/d'' \<or> p = ''/tmp/d/'' then Inl (Error ''EISDIR'')
                            else Inl (Error ''ENOENT'')),
      statSettlesFirst = (\<lambda>p. False),
      watch = (\<lambda>p. if p = ''/tmp/d'' \<or> p = ''/tmp/d/'' \<or> p = ''/tmp/d/a'' then Inr ()
                    else Inl (Error ''ENOENT'')),
      watcher_close = (\<lambda>w. None),
      watcher_member = (\<lambda>k. if k \<in> set [''close'', ''start'', ''on'', ''emit'']
                              then Some (Inl (not_a_function ''watcher.close'')) else None)\<rparr>"

text \<open>
  The file \<^verbatim>\<open>/tmp/e\<close> holds the two bytes C3 A9, which are the UTF-8 encoding of the one
  character U+00E9.
\<close>

definition accent_fs :: fs where
  "accent_fs =
     \<lparr>readdirAsync = (\<lambda>p. Inl (Error ''ENOTDIR'')),
      statAsync = (\<lambda>p. if p = ''/tmp/e''
                          then Inr \<lparr>isDirectory = False, mtime = 1383436800000, size_st = 2\<rparr>
                        else Inl (Error ''ENOENT'')),
      readFileAsync = (\<lambda>p. if p = ''/tmp/e'' then Inr [CHR 0xC3, CHR 0xA9]
                            else Inl (Error ''ENOENT'')),
      statSettlesFirst = (\<lambda>p. False),
      watch = (\<lambda>p. if p = ''/tmp/e'' then Inr () else Inl (Error ''ENOENT'')),
      watcher_close = (\<lambda>w. None),
      watcher_member = (\<lambda>k. if k \<in> set [''close'', ''start'', ''on'', ''emit'']
                              then Some (Inl (not_a_function ''watcher.close'')) else None)\<rparr>"

text \<open>The same file system, where every \<^verbatim>\<open>close()\<close> of a watcher throws.\<close>

definition stubborn_fs :: fs where
  "stubborn_fs = scenario_fs\<lparr>watcher_close := (\<lambda>w. Some (Error ''EBADF''))\<rparr>"

text \<open>The registry after \<^verbatim>\<open>watchPath("/tmp/d/")\<close>, and after \<^verbatim>\<open>watchPath("/tmp/d/a")\<close> as well.\<close>

definition watching_d :: state where
  "watching_d = snd (watchPath scenario_fs ''/tmp/d/'' init_state)"

definition watching_two :: state where
  "watching_two = snd (watchPath scenario_fs ''/tmp/d/a'' watching_d)"

text \<open>
  The same file system seen from a working directory that holds a file called
  \<^verbatim>\<open>hasOwnProperty\<close>, so that the relative path \<^verbatim>\<open>hasOwnProperty\<close> can be watched; and
  the registry after \<^verbatim>\<open>watchPath("hasOwnProperty")\<close>.
\<close>

definition cwd_fs :: fs where
  "cwd_fs = scenario_fs\<lparr>watch := (\<lambda>p. if p = ''hasOwnProperty'' then Inr () else watch scenario_fs p)\<rparr>"

definition watching_shadow :: state where
  "watching_shadow = snd (watchPath cwd_fs ''hasOwnProperty'' init_state)"

section \<open>Directory lister: properties\<close>

lemma reduce_from_collect:
  "drop i names = ys \<Longrightarrow>
   reduce_from
     (\<lambda>total inspector index.
        (case inspector of
           Inr st \<Rightarrow> total @ [addStats [(''name'', at_index names index)] st]
         | Inl _ \<Rightarrow> total)) i (map g ys) acc =
   acc @ List.map_filter
           (\<lambda>name. case g name of
                      Inr st \<Rightarrow> Some (addStats [(''name'', JStr name)] st)
                    | Inl _ \<Rightarrow> None) ys"
proof (induction ys arbitrary: i acc)
  case Nil
  then show ?case by simp
next
  case (Cons y ys)
  from Cons.prems have i: "i < length names"
    by (metis drop_all list.distinct(1) not_le)
  with Cons.prems have y: "names ! i = y" and rest: "drop (Suc i) names = ys"
    by (metis Cons_nth_drop_Suc list.inject)+
  show ?case
    using Cons.IH [OF rest] i y
    by (cases "g y") (simp_all add: at_index_def)
qed

lemma readdirCmd_eq:
  "readdirCmd os path =
     (case readdirAsync os path of
        Inl err \<Rightarrow> Inl err
      | Inr names \<Rightarrow>
          Inr (List.map_filter
                 (\<lambda>name. case statAsync os (path @ name) of
                            Inr st \<Rightarrow> Some (addStats [(''name'', JStr name)] st)
                          | Inl _ \<Rightarrow> None) names))"
  using reduce_from_collect [of 0 _ _ "\<lambda>name. statAsync os (path @ name)" "[]"]
  by (simp add: readdirCmd_def reduce_def settle_def split: sum.splits)

lemma name_addStats: "map_of (addStats [(''name'', v)] st) ''name'' = Some v"
  by (simp add: addStats_def update_conv')

lemma map_filter_stats:
  "List.map_filter
     (\<lambda>name. case g name of
                Inr st \<Rightarrow> Some (addStats [(''name'', JStr name)] st)
              | Inl _ \<Rightarrow> None) names =
   map (\<lambda>name. addStats [(''name'', JStr name)] (projr (g name)))
     (filter (\<lambda>name. isFulfilled (g name)) names)"
  by (induction names) (simp_all add: isFulfilled_def split: sum.splits)

text \<open>
  C1, as stated, at its own scenario: \<^verbatim>\<open>readdir("/tmp/d")\<close> stats \<^verbatim>\<open>/tmp/da\<close> and
  \<^verbatim>\<open>/tmp/db\<close>, since \<^verbatim>\<open>[path, name].join("")\<close> puts no separator between the
  directory and the child name. Neither exists, so both entries are dropped and the
  listing is empty, not the one entry for \<open>a\<close>.
\<close>

theorem readdirCmd_scenario_counterexample:
  "readdirCmd scenario_fs ''/tmp/d'' = Inr [] \<and>
   readdirCmd scenario_fs ''/tmp/d'' \<noteq>
     Inr [[(''name'', JStr ''a''), (''isFile'', JBool True), (''mtime'', JNum 1383436800000),
           (''size'', JNum 10)]]"
  by (simp add: readdirCmd_def scenario_fs_def reduce_def settle_def)

text \<open>
  C1, amended: when the directory can be listed, \<^verbatim>\<open>readdir\<close> stats, for every child name
  of the listing, the given path with the child name appended (no separator is inserted),
  and answers one entry for each name whose stat succeeds; a listing that fails is the
  failure of the call. So for the scenario's directory given with its trailing separator,
  \<^verbatim>\<open>readdir("/tmp/d/")\<close> is exactly the entry for \<open>a\<close> (a file, 10 bytes, its
  modification time), with \<open>b\<close> left out.
\<close>

theorem readdirCmd_stats_concatenation:
  "readdirCmd os path =
     (case readdirAsync os path of
        Inl err \<Rightarrow> Inl err
      | Inr names \<Rightarrow>
          Inr (List.map_filter
                 (\<lambda>name. case statAsync os (path @ name) of
                            Inr st \<Rightarrow> Some (addStats [(''name'', JStr name)] st)
                          | Inl _ \<Rightarrow> None) names)) \<and>
   readdirCmd scenario_fs ''/tmp/d/'' =
     Inr [[(''name'', JStr ''a''), (''isFile'', JBool True), (''mtime'', JNum 1383436800000),
           (''size'', JNum 10)]]"
proof
  show "readdirCmd os path =
     (case readdirAsync os path of
        Inl err \<Rightarrow> Inl err
      | Inr names \<Rightarrow>
          Inr (List.map_filter
                 (\<lambda>name. case statAsync os (path @ name) of
                            Inr st \<Rightarrow> Some (addStats [(''name'', JStr name)] st)
                          | Inl _ \<Rightarrow> None) names))"
    by (rule readdirCmd_eq)
  show "readdirCmd scenario_fs ''/tmp/d/'' =
     Inr [[(''name'', JStr ''a''), (''isFile'', JBool True), (''mtime'', JNum 1383436800000),
           (''size'', JNum 10)]]"
    by (simp add: readdirCmd_def scenario_fs_def reduce_def settle_def addStats_def
        at_index_def)
qed

text \<open>
  C3: when the listing of the directory yields the names \<open>names\<close> (N of them), of which
  K have a stat that fails, \<^verbatim>\<open>readdir\<close> succeeds with N - K entries, and the names of the
  entries are the names whose stat succeeded, in the order of the listing.
\<close>

theorem readdirCmd_stable_filter:
  assumes "readdirAsync os path = Inr names"
  shows "\<exists>entries. readdirCmd os path = Inr entries \<and>
           length entries +
             length (filter (\<lambda>name. \<not> isFulfilled (statAsync os (path @ name))) names) =
             length names \<and>
           map (\<lambda>entry. map_of entry ''name'') entries =
             map (\<lambda>name. Some (JStr name))
               (filter (\<lambda>name. isFulfilled (statAsync os (path @ name))) names)"
proof -
  let ?ok = "\<lambda>name. isFulfilled (statAsync os (path @ name))"
  let ?entries = "map (\<lambda>name. addStats [(''name'', JStr name)] (projr (statAsync os (path @ name))))
                    (filter ?ok names)"
  have res: "readdirCmd os path = Inr ?entries"
    using assms by (simp add: readdirCmd_eq map_filter_stats)
  have len: "length ?entries + length (filter (\<lambda>name. \<not> ?ok name) names) = length names"
    using sum_length_filter_compl [of ?ok names] by simp
  have ord: "map (\<lambda>entry. map_of entry ''name'') ?entries =
               map (\<lambda>name. Some (JStr name)) (filter ?ok names)"
    by (simp add: name_addStats comp_def)
  from res len ord show ?thesis by blast
qed

theorem readdirCmd_stable_filter_witness:
  "readdirAsync scenario_fs ''/tmp/d/'' = Inr [''a'', ''b''] \<and>
   (\<exists>entries. readdirCmd scenario_fs ''/tmp/d/'' = Inr entries \<and>
      length entries + 1 = 2 \<and>
      map (\<lambda>entry. map_of entry ''name'') entries = [Some (JStr ''a'')])"
proof -
  have h: "readdirAsync scenario_fs ''/tmp/d/'' = Inr [''a'', ''b'']"
    by (simp add: scenario_fs_def)
  show ?thesis
    using h readdirCmd_stable_filter [OF h]
    by (simp add: scenario_fs_def isFulfilled_def)
qed

section \<open>File reader: properties\<close>

lemma readFileCmd_eq:
  "readFileCmd os path encoding =
     (case readFileAsync os path of
        Inr data \<Rightarrow>
          (case statAsync os path of
             Inr st \<Rightarrow> Inr (addStats [(''data'', JStr data)] st)
           | Inl es \<Rightarrow> Inl es)
      | Inl er \<Rightarrow>
          (case statAsync os path of
             Inr _ \<Rightarrow> Inl er
           | Inl es \<Rightarrow> Inl (if statSettlesFirst os path then es else er)))"
  by (simp add: readFileCmd_def Promise_join_def String_toString_def split: sum.splits)

text \<open>The answer of \<^verbatim>\<open>readFile\<close> is the same for every requested encoding.\<close>

lemma readFileCmd_any_encoding:
  "readFileCmd os path encoding = readFileCmd os path encoding'"
  by (simp add: readFileCmd_eq)

text \<open>
  C2 does not hold of the code. The file's bytes C3 A9 read as \<^verbatim>\<open>"utf8"\<close> come back as
  the two characters with codes C3 and A9, not decoded to the one character they encode,
  and an encoding name that does not exist gives the same answer instead of an error:
  \<^verbatim>\<open>data\<close> is already a string when \<^verbatim>\<open>data.toString(encoding)\<close> is called, so the
  requested encoding is never used.
\<close>

theorem readFileCmd_ignores_encoding:
  "readFileCmd accent_fs ''/tmp/e'' ''utf8'' =
     Inr [(''data'', JStr [CHR 0xC3, CHR 0xA9]), (''isFile'', JBool True),
          (''mtime'', JNum 1383436800000), (''size'', JNum 2)] \<and>
   readFileCmd accent_fs ''/tmp/e'' ''no-such-encoding'' =
     Inr [(''data'', JStr [CHR 0xC3, CHR 0xA9]), (''isFile'', JBool True),
          (''mtime'', JNum 1383436800000), (''size'', JNum 2)]"
  by (simp add: readFileCmd_def accent_fs_def Promise_join_def String_toString_def addStats_def)

text \<open>
  C4: \<^verbatim>\<open>readFile\<close> fails exactly when the read or the stat fails; the error it fails with
  is the error of a sub-operation that failed, unchanged; and when it succeeds the result
  is complete: the content that was read, and the three fields of the stat.
\<close>

theorem readFileCmd_fails_iff:
  "(\<not> isFulfilled (readFileCmd os path encoding) \<longleftrightarrow>
      \<not> isFulfilled (readFileAsync os path) \<or> \<not> isFulfilled (statAsync os path)) \<and>
   (\<forall>err. readFileCmd os path encoding = Inl err \<longrightarrow>
      readFileAsync os path = Inl err \<or> statAsync os path = Inl err) \<and>
   (\<forall>result. readFileCmd os path encoding = Inr result \<longrightarrow>
      (\<exists>data st. readFileAsync os path = Inr data \<and> statAsync os path = Inr st \<and>
         result = addStats [(''data'', JStr data)] st \<and>
         map_of result ''data'' = Some (JStr data) \<and>
         map_of result ''isFile'' = Some (JBool (\<not> isDirectory st)) \<and>
         map_of result ''mtime'' = Some (JNum (mtime st)) \<and>
         map_of result ''size'' = Some (JNum (size_st st))))"
  by (auto simp: readFileCmd_eq isFulfilled_def addStats_def update_conv' split: sum.splits)

theorem readFileCmd_fails_iff_witness:
  "readFileCmd scenario_fs ''/tmp/d/b'' ''utf8'' = Inl (Error ''ENOENT'') \<and>
   readFileAsync scenario_fs ''/tmp/d/b'' = Inl (Error ''ENOENT'') \<and>
   readFileCmd scenario_fs ''/tmp/d'' ''utf8'' = Inl (Error ''EISDIR'') \<and>
   readFileAsync scenario_fs ''/tmp/d'' = Inl (Error ''EISDIR'') \<and>
   isFulfilled (statAsync scenario_fs ''/tmp/d'') \<and>
   readFileCmd scenario_fs ''/tmp/d/a'' ''utf8'' =
     Inr [(''data'', JStr ''0123456789''), (''isFile'', JBool True),
          (''mtime'', JNum 1383436800000), (''size'', JNum 10)] \<and>
   isFulfilled (readFileAsync scenario_fs ''/tmp/d/a'') \<and>
   isFulfilled (statAsync scenario_fs ''/tmp/d/a'')"
  using readFileCmd_fails_iff [of scenario_fs "''/tmp/d/b''" "''utf8''"]
    readFileCmd_fails_iff [of scenario_fs "''/tmp/d''" "''utf8''"]
    readFileCmd_fails_iff [of scenario_fs "''/tmp/d/a''" "''utf8''"]
  by (simp add: readFileCmd_def scenario_fs_def Promise_join_def String_toString_def
      addStats_def isFulfilled_def)

section \<open>Watch registry: properties\<close>

lemma hasOwnProperty_map_of: "hasOwnProperty obj k \<longleftrightarrow> map_of obj k \<noteq> None"
  by (simp add: hasOwnProperty_def map_of_eq_None_iff)

lemma hasOwnProperty_delete: "\<not> hasOwnProperty (AList.delete k obj) k"
  by (simp add: hasOwnProperty_map_of delete_conv')

lemma hasOwnProperty_delete_other:
  "hasOwnProperty (AList.delete k obj) k' \<longleftrightarrow> hasOwnProperty obj k' \<and> k' \<noteq> k"
  by (auto simp: hasOwnProperty_map_of delete_conv')

lemma in_set_update:
  "(p, v) \<in> set (AList.update k w al) \<Longrightarrow> (p, v) = (k, w) \<or> (p, v) \<in> set al"
  by (induction al) (auto split: if_splits)

lemma in_set_delete:
  "(p, v) \<in> set (AList.delete k al) \<longleftrightarrow> (p, v) \<in> set al \<and> p \<noteq> k"
  by (auto simp: AList.delete_eq)

lemma set_for_in_keys: "set (for_in_keys obj) = fst ` set obj"
  by (auto simp: for_in_keys_def)

text \<open>Where the value read by \<open>getProperty\<close> comes from.\<close>

lemma getProperty_own:
  "map_of (watcherMap s) path = Some w \<Longrightarrow> getProperty os s path = Watcher w"
  by (simp add: getProperty_def)

lemma getProperty_Undefined:
  "getProperty os s path = Undefined \<Longrightarrow> \<not> hasOwnProperty (watcherMap s) path"
  by (auto simp: getProperty_def hasOwnProperty_map_of split: option.splits if_splits)

lemma getProperty_Watcher:
  "getProperty os s path = Watcher w \<Longrightarrow>
     map_of (watcherMap s) path = Some w \<or>
     (map_of (watcherMap s) path = None \<and> proto s = Some w \<and> path = ''__proto__'')"
  by (auto simp: getProperty_def split: option.splits if_splits)

lemma getProperty_Other:
  "getProperty os s path = Other r \<Longrightarrow> \<not> hasOwnProperty (watcherMap s) path"
  by (auto simp: getProperty_def hasOwnProperty_map_of split: option.splits if_splits)

lemma getProperty_cong:
  assumes m: "watcherMap s1 = watcherMap s" and p: "proto s1 = proto s"
  shows "getProperty os s1 path = getProperty os s path"
  unfolding getProperty_def m p by (rule refl)

text \<open>\<open>unwatchPath\<close>: its completion, and what it does to each part of the state.\<close>

lemma fst_unwatchPath: "fst (unwatchPath os path s) = Inr ()"
  by (simp add: unwatchPath_def Let_def split: property.splits)

lemma watcherMap_unwatchPath:
  "watcherMap (snd (unwatchPath os path s)) = AList.delete path (watcherMap s)"
proof (cases "getProperty os s path")
  case Undefined
  from getProperty_Undefined [OF this] show ?thesis
    using Undefined by (simp add: unwatchPath_def hasOwnProperty_def)
next
  case (Watcher w)
  then show ?thesis
    by (simp add: unwatchPath_def Let_def split: option.splits)
next
  case (Other r)
  then show ?thesis
    by (simp add: unwatchPath_def Let_def split: sum.splits)
qed

lemma proto_unwatchPath: "proto (snd (unwatchPath os path s)) = proto s"
  by (simp add: unwatchPath_def Let_def split: property.splits option.splits sum.splits)

lemma length_watchers_unwatchPath:
  "length (watchers (snd (unwatchPath os path s))) = length (watchers s)"
  by (simp add: unwatchPath_def Let_def split: property.splits option.splits sum.splits)

lemma watchers_unwatchPath:
  assumes "\<And>u. getProperty os s path = Watcher u \<Longrightarrow> u \<noteq> v"
  shows "watchers (snd (unwatchPath os path s)) ! v = watchers s ! v"
  using assms
  by (cases "getProperty os s path")
    (auto simp: unwatchPath_def Let_def split: option.splits sum.splits)

lemma wstatus_unwatchPath:
  assumes "w < length (watchers s)" "wstatus (watchers s ! w) \<noteq> Active"
  shows "wstatus (watchers (snd (unwatchPath os p s)) ! w) \<noteq> Active"
proof (cases "getProperty os s p")
  case (Watcher u)
  with assms show ?thesis
    by (cases "u = w") (simp_all add: unwatchPath_def Let_def split: option.splits)
qed (use assms in \<open>simp_all add: unwatchPath_def Let_def split: sum.splits\<close>)

text \<open>\<open>watchPath\<close>, by the four ways through it.\<close>

lemma watchPath_shadowed:
  "hasOwnProperty (watcherMap s) ''hasOwnProperty'' \<Longrightarrow>
     watchPath os path s = (Inl (not_a_function ''_watcherMap.hasOwnProperty''), s)"
  by (simp add: watchPath_def call_hasOwnProperty_def)

lemma watchPath_registered:
  "\<not> hasOwnProperty (watcherMap s) ''hasOwnProperty'' \<Longrightarrow> hasOwnProperty (watcherMap s) path \<Longrightarrow>
     watchPath os path s = (Inr (), s)"
  by (simp add: watchPath_def call_hasOwnProperty_def)

lemma watchPath_failed:
  "\<not> hasOwnProperty (watcherMap s) ''hasOwnProperty'' \<Longrightarrow> \<not> hasOwnProperty (watcherMap s) path \<Longrightarrow>
   watch os path = Inl err \<Longrightarrow>
     watchPath os path s =
       (Inr (), s\<lparr>console := console s @
                   [Warn (''Failed to watch file '' @ path @ '': '' @ message err)]\<rparr>)"
  by (simp add: watchPath_def call_hasOwnProperty_def)

lemma watchPath_created:
  "\<not> hasOwnProperty (watcherMap s) ''hasOwnProperty'' \<Longrightarrow> \<not> hasOwnProperty (watcherMap s) path \<Longrightarrow>
   isFulfilled (watch os path) \<Longrightarrow>
     watchPath os path s =
       (Inr (), setProperty (s\<lparr>watchers := watchers s @ [\<lparr>wpath = path, wstatus = Active\<rparr>]\<rparr>)
                  path (length (watchers s)))"
  by (simp add: watchPath_def call_hasOwnProperty_def isFulfilled_def Let_def split: sum.splits)

lemma watchPath_cases:
  obtains (shadowed) "watchPath os path s = (Inl (not_a_function ''_watcherMap.hasOwnProperty''), s)"
  | (registered) "watchPath os path s = (Inr (), s)"
  | (failed) err where "watchPath os path s =
       (Inr (), s\<lparr>console := console s @
                   [Warn (''Failed to watch file '' @ path @ '': '' @ message err)]\<rparr>)"
  | (created) "\<not> hasOwnProperty (watcherMap s) path" "watchPath os path s =
       (Inr (), setProperty (s\<lparr>watchers := watchers s @ [\<lparr>wpath = path, wstatus = Active\<rparr>]\<rparr>)
                  path (length (watchers s)))"
proof (cases "hasOwnProperty (watcherMap s) ''hasOwnProperty''")
  case True
  then show ?thesis by (rule shadowed [OF watchPath_shadowed])
next
  case unshadowed: False
  show ?thesis
  proof (cases "hasOwnProperty (watcherMap s) path")
    case True
    with unshadowed show ?thesis by (intro registered watchPath_registered)
  next
    case False
    show ?thesis
    proof (cases "watch os path")
      case (Inl err)
      with unshadowed False show ?thesis by (intro failed watchPath_failed)
    next
      case (Inr u)
      then have "isFulfilled (watch os path)" by (simp add: isFulfilled_def)
      with unshadowed False show ?thesis by (intro created watchPath_created)
    qed
  qed
qed

lemma watcherMap_watchPath:
  "watcherMap (snd (watchPath os path s)) =
     (if \<not> hasOwnProperty (watcherMap s) ''hasOwnProperty'' \<and>
         \<not> hasOwnProperty (watcherMap s) path \<and> isFulfilled (watch os path) \<and>
         path \<noteq> ''__proto__''
      then AList.update path (length (watchers s)) (watcherMap s) else watcherMap s)"
  by (auto simp: watchPath_def call_hasOwnProperty_def setProperty_def Let_def isFulfilled_def
      split: sum.splits bool.splits)

lemma consistent_iff:
  "consistent s \<longleftrightarrow>
     distinct (map fst (watcherMap s)) \<and>
     (\<forall>path w. (path, w) \<in> set (watcherMap s) \<longrightarrow>
        w < length (watchers s) \<and> watchers s ! w = \<lparr>wpath = path, wstatus = Active\<rparr>) \<and>
     (\<forall>pw. proto s = Some pw \<longrightarrow>
        pw < length (watchers s) \<and> (\<forall>path. (path, pw) \<notin> set (watcherMap s)))"
  by (auto simp: consistent_def list_all_iff split: option.splits) force+

lemma consistent_init: "consistent init_state"
  by (simp add: consistent_def init_state_def)

lemma consistentI:
  assumes "distinct (map fst (watcherMap s))"
    and "\<And>p v. (p, v) \<in> set (watcherMap s) \<Longrightarrow>
           v < length (watchers s) \<and> watchers s ! v = \<lparr>wpath = p, wstatus = Active\<rparr>"
    and "\<And>pw. proto s = Some pw \<Longrightarrow> pw < length (watchers s)"
    and "\<And>pw p. proto s = Some pw \<Longrightarrow> (p, pw) \<notin> set (watcherMap s)"
  shows "consistent s"
  using assms unfolding consistent_iff by blast

lemma consistent_entry:
  "consistent s \<Longrightarrow> (p, v) \<in> set (watcherMap s) \<Longrightarrow>
     v < length (watchers s) \<and> watchers s ! v = \<lparr>wpath = p, wstatus = Active\<rparr>"
  by (auto simp: consistent_iff)

lemma consistent_distinct: "consistent s \<Longrightarrow> distinct (map fst (watcherMap s))"
  by (simp add: consistent_def)

lemma consistent_proto:
  "consistent s \<Longrightarrow> proto s = Some pw \<Longrightarrow>
     pw < length (watchers s) \<and> (p, pw) \<notin> set (watcherMap s)"
  by (auto simp: consistent_iff)

text \<open>In a consistent registry, two paths never share a watcher.\<close>

lemma consistent_inj:
  assumes "consistent s" "(p, v) \<in> set (watcherMap s)" "(q, v) \<in> set (watcherMap s)"
  shows "p = q"
  using consistent_entry [OF assms(1) assms(2)] consistent_entry [OF assms(1) assms(3)]
  by simp

text \<open>Removing the entry of a path, whatever happens to watchers that other paths do not use.\<close>

lemma consistent_remove:
  assumes c: "consistent s"
    and m: "watcherMap s' = AList.delete path (watcherMap s)"
    and pr: "proto s' = proto s"
    and len: "length (watchers s') = length (watchers s)"
    and same: "\<And>p v. (p, v) \<in> set (watcherMap s) \<Longrightarrow> p \<noteq> path \<Longrightarrow>
                 watchers s' ! v = watchers s ! v"
  shows "consistent s'"
proof (rule consistentI)
  show "distinct (map fst (watcherMap s'))"
    unfolding m using consistent_distinct [OF c] by (rule distinct_delete)
next
  fix p v
  assume "(p, v) \<in> set (watcherMap s')"
  then have in_s: "(p, v) \<in> set (watcherMap s)" and ne: "p \<noteq> path"
    by (simp_all add: m in_set_delete)
  from consistent_entry [OF c in_s] same [OF in_s ne] len
  show "v < length (watchers s') \<and> watchers s' ! v = \<lparr>wpath = p, wstatus = Active\<rparr>"
    by simp
next
  fix pw
  assume "proto s' = Some pw"
  with consistent_proto [OF c, of pw] pr len show "pw < length (watchers s')"
    by simp
next
  fix pw p
  assume "proto s' = Some pw"
  with consistent_proto [OF c, of pw p] pr show "(p, pw) \<notin> set (watcherMap s')"
    by (simp add: m in_set_delete)
qed

text \<open>
  \<open>unwatchPath\<close> in a state \<open>s1\<close> that has the registry of a consistent state \<open>s\<close> and
  its watchers, but for watchers that only the entry of \<open>path\<close> can hold.
\<close>

lemma consistent_unwatchPath_from:
  assumes c: "consistent s"
    and m1: "watcherMap s1 = watcherMap s"
    and p1: "proto s1 = proto s"
    and l1: "length (watchers s1) = length (watchers s)"
    and w1: "\<And>p v. (p, v) \<in> set (watcherMap s) \<Longrightarrow> p \<noteq> path \<Longrightarrow>
               watchers s1 ! v = watchers s ! v"
  shows "consistent (snd (unwatchPath os path s1))"
proof (rule consistent_remove [OF c])
  show "watcherMap (snd (unwatchPath os path s1)) = AList.delete path (watcherMap s)"
    by (simp add: watcherMap_unwatchPath m1)
  show "proto (snd (unwatchPath os path s1)) = proto s"
    by (simp add: proto_unwatchPath p1)
  show "length (watchers (snd (unwatchPath os path s1))) = length (watchers s)"
    by (simp add: length_watchers_unwatchPath l1)
next
  fix p v
  assume in_s: "(p, v) \<in> set (watcherMap s)" and ne: "p \<noteq> path"
  have "u \<noteq> v" if "getProperty os s1 path = Watcher u" for u
  proof -
    from getProperty_Watcher [OF that]
    consider "map_of (watcherMap s) path = Some u" | "proto s = Some u"
      by (auto simp: m1 p1)
    then show ?thesis
    proof cases
      case 1
      then have "(path, u) \<in> set (watcherMap s)" by (rule map_of_SomeD)
      with consistent_inj [OF c in_s] ne show ?thesis by blast
    next
      case 2
      from consistent_proto [OF c 2, of p] in_s show ?thesis by blast
    qed
  qed
  then have "watchers (snd (unwatchPath os path s1)) ! v = watchers s1 ! v"
    by (rule watchers_unwatchPath)
  with w1 [OF in_s ne] show "watchers (snd (unwatchPath os path s1)) ! v = watchers s ! v"
    by simp
qed

lemma consistent_unwatchPath:
  "consistent s \<Longrightarrow> consistent (snd (unwatchPath os path s))"
  by (rule consistent_unwatchPath_from) simp_all

lemma consistent_watcherError:
  assumes c: "consistent s"
  shows "consistent (snd (watcherError os w err s))"
proof (cases "w < length (watchers s) \<and> wstatus (watchers s ! w) = Active")
  case False
  with c show ?thesis by (auto simp: watcherError_def)
next
  case True
  define path where "path = wpath (watchers s ! w)"
  define s1 where "s1 = s\<lparr>watchers := (watchers s)[w := (watchers s ! w)\<lparr>wstatus := Errored\<rparr>],
               console := console s @
                 [ErrorLine (''Error watching file '' @ path @ '': '' @ message err)]\<rparr>"
  from True have eq: "watcherError os w err s = unwatchPath os path s1"
    by (simp add: watcherError_def Let_def path_def s1_def)
  show ?thesis
    unfolding eq
  proof (rule consistent_unwatchPath_from [OF c])
    fix p v
    assume in_s: "(p, v) \<in> set (watcherMap s)" and ne: "p \<noteq> path"
    from consistent_entry [OF c in_s] ne have "v \<noteq> w"
      by (auto simp: path_def)
    then show "watchers s1 ! v = watchers s ! v"
      by (simp add: s1_def)
  qed (simp_all add: s1_def)
qed

lemma consistent_watchPath:
  assumes c: "consistent s"
  shows "consistent (snd (watchPath os path s))"
proof (cases os path s rule: watchPath_cases)
  case shadowed
  with c show ?thesis by simp
next
  case registered
  with c show ?thesis by simp
next
  case (failed err)
  with c show ?thesis by (simp add: consistent_def split: option.splits)
next
  case created
  let ?n = "length (watchers s)"
  let ?s1 = "s\<lparr>watchers := watchers s @ [\<lparr>wpath = path, wstatus = Active\<rparr>]\<rparr>"
  have old: "v < ?n \<and> (watchers s @ [\<lparr>wpath = path, wstatus = Active\<rparr>]) ! v =
               \<lparr>wpath = p, wstatus = Active\<rparr>"
    if "(p, v) \<in> set (watcherMap s)" for p v
    using consistent_entry [OF c that] by (simp add: nth_append)
  show ?thesis
  proof (cases "path = ''__proto__''")
    case True
    have eq: "snd (watchPath os path s) = ?s1\<lparr>proto := Some ?n\<rparr>"
      unfolding created(2) using created(1) True by (simp add: setProperty_def)
    show ?thesis
      unfolding eq
    proof (rule consistentI)
      show "distinct (map fst (watcherMap (?s1\<lparr>proto := Some ?n\<rparr>)))"
        using consistent_distinct [OF c] by simp
    next
      fix p v
      assume "(p, v) \<in> set (watcherMap (?s1\<lparr>proto := Some ?n\<rparr>))"
      with old [of p v]
      show "v < length (watchers (?s1\<lparr>proto := Some ?n\<rparr>)) \<and>
            watchers (?s1\<lparr>proto := Some ?n\<rparr>) ! v = \<lparr>wpath = p, wstatus = Active\<rparr>"
        by simp
    next
      fix pw
      assume "proto (?s1\<lparr>proto := Some ?n\<rparr>) = Some pw"
      then show "pw < length (watchers (?s1\<lparr>proto := Some ?n\<rparr>))" by auto
    next
      fix pw p
      assume "proto (?s1\<lparr>proto := Some ?n\<rparr>) = Some pw"
      then have "pw = ?n" by simp
      with old [of p pw] show "(p, pw) \<notin> set (watcherMap (?s1\<lparr>proto := Some ?n\<rparr>))"
        by auto
    qed
  next
    case False
    have eq: "snd (watchPath os path s) =
        ?s1\<lparr>watcherMap := AList.update path ?n (watcherMap s)\<rparr>"
      unfolding created(2) using False by (simp add: setProperty_def)
    show ?thesis
      unfolding eq
    proof (rule consistentI)
      show "distinct (map fst (watcherMap
              (?s1\<lparr>watcherMap := AList.update path ?n (watcherMap s)\<rparr>)))"
        using consistent_distinct [OF c] by (simp add: distinct_update)
    next
      fix p v
      assume "(p, v) \<in> set (watcherMap (?s1\<lparr>watcherMap := AList.update path ?n (watcherMap s)\<rparr>))"
      then have "(p, v) = (path, ?n) \<or> (p, v) \<in> set (watcherMap s)"
        by (auto dest: in_set_update)
      with old [of p v]
      show "v < length (watchers (?s1\<lparr>watcherMap := AList.update path ?n (watcherMap s)\<rparr>)) \<and>
            watchers (?s1\<lparr>watcherMap := AList.update path ?n (watcherMap s)\<rparr>) ! v =
              \<lparr>wpath = p, wstatus = Active\<rparr>"
        by auto
    next
      fix pw
      assume "proto (?s1\<lparr>watcherMap := AList.update path ?n (watcherMap s)\<rparr>) = Some pw"
      then have "proto s = Some pw" by simp
      from consistent_proto [OF c this, of path]
      show "pw < length (watchers (?s1\<lparr>watcherMap := AList.update path ?n (watcherMap s)\<rparr>))"
        by simp
    next
      fix pw p
      assume pw: "proto (?s1\<lparr>watcherMap := AList.update path ?n (watcherMap s)\<rparr>) = Some pw"
      show "(p, pw) \<notin> set (watcherMap (?s1\<lparr>watcherMap := AList.update path ?n (watcherMap s)\<rparr>))"
      proof
        assume "(p, pw) \<in> set (watcherMap (?s1\<lparr>watcherMap := AList.update path ?n (watcherMap s)\<rparr>))"
        then have "(p, pw) = (path, ?n) \<or> (p, pw) \<in> set (watcherMap s)"
          by (auto dest: in_set_update)
        with consistent_proto [OF c, of pw p] pw show False by auto
      qed
    qed
  qed
qed

lemma consistent_unwatchAll_loop:
  "consistent s \<Longrightarrow> consistent (snd (unwatchAll_loop os paths s))"
proof (induction paths arbitrary: s)
  case Nil
  then show ?case by simp
next
  case (Cons path paths)
  obtain r s' where u: "unwatchPath os path s = (r, s')"
    by (cases "unwatchPath os path s")
  with consistent_unwatchPath [OF Cons.prems, of os path] have "consistent s'" by simp
  with Cons.IH [of s'] Cons.IH [of s] Cons.prems u show ?case
    by (auto simp: call_hasOwnProperty_def split: sum.splits bool.splits)
qed

lemma consistent_unwatchAll: "consistent s \<Longrightarrow> consistent (snd (unwatchAll os s))"
  by (simp add: unwatchAll_def consistent_unwatchAll_loop)

lemma consistent_step: "consistent s \<Longrightarrow> consistent (snd (step os e s))"
  by (cases e)
    (simp_all add: consistent_watchPath consistent_unwatchPath consistent_unwatchAll
      consistent_watcherError)

lemma consistent_run: "consistent s \<Longrightarrow> consistent (run es s)"
  by (induction es arbitrary: s) (auto simp: consistent_step)

lemma watching_d_eq:
  "watching_d = \<lparr>watcherMap = [(''/tmp/d/'', 0)], proto = None,
                  watchers = [\<lparr>wpath = ''/tmp/d/'', wstatus = Active\<rparr>], console = []\<rparr>"
  by (simp add: watching_d_def watchPath_def call_hasOwnProperty_def setProperty_def
      hasOwnProperty_def init_state_def scenario_fs_def)

lemma watching_two_eq:
  "watching_two =
     \<lparr>watcherMap = [(''/tmp/d/'', 0), (''/tmp/d/a'', 1)], proto = None,
      watchers = [\<lparr>wpath = ''/tmp/d/'', wstatus = Active\<rparr>,
                  \<lparr>wpath = ''/tmp/d/a'', wstatus = Active\<rparr>],
      console = []\<rparr>"
  by (simp add: watching_two_def watching_d_eq watchPath_def call_hasOwnProperty_def
      setProperty_def hasOwnProperty_def scenario_fs_def)

lemma watching_shadow_eq:
  "watching_shadow =
     \<lparr>watcherMap = [(''hasOwnProperty'', 0)], proto = None,
      watchers = [\<lparr>wpath = ''hasOwnProperty'', wstatus = Active\<rparr>], console = []\<rparr>"
  by (simp add: watching_shadow_def watchPath_def call_hasOwnProperty_def setProperty_def
      hasOwnProperty_def init_state_def cwd_fs_def)

lemma not_array_index_tmp: "\<not> is_array_index ''/tmp/d/'' \<and> \<not> is_array_index ''/tmp/d/a''"
  by (simp add: is_array_index_def is_digit_def)

lemma length_entries_distinct:
  "distinct (map fst al) \<Longrightarrow>
     length (filter (\<lambda>entry. fst entry = k) al) = (if k \<in> fst ` set al then 1 else 0)"
  by (induction al) (auto simp: rev_image_eqI)

lemma distinct_watchPath:
  "distinct (map fst (watcherMap s)) \<Longrightarrow> distinct (map fst (watcherMap (snd (watchPath os p s))))"
  by (simp add: watcherMap_watchPath distinct_update)

lemma keys_watchPath:
  "\<not> hasOwnProperty (watcherMap s) ''hasOwnProperty'' \<Longrightarrow> p \<noteq> ''__proto__'' \<Longrightarrow>
   fst ` set (watcherMap (snd (watchPath os p s))) =
     (if isFulfilled (watch os p) then insert p (fst ` set (watcherMap s))
      else fst ` set (watcherMap s))"
  by (auto simp: watcherMap_watchPath dom_update hasOwnProperty_def)

lemma unshadowed_watchPath:
  "\<not> hasOwnProperty (watcherMap s) ''hasOwnProperty'' \<Longrightarrow> p \<noteq> ''hasOwnProperty'' \<Longrightarrow>
   \<not> hasOwnProperty (watcherMap (snd (watchPath os p s))) ''hasOwnProperty''"
  by (auto simp: watcherMap_watchPath hasOwnProperty_def dom_update)

text \<open>
  The model at the keys where a plain object is not a dictionary: a watcher stored under
  \<^verbatim>\<open>"__proto__"\<close> becomes the prototype and no entry, so a second \<^verbatim>\<open>watchPath\<close> creates
  a second watcher; and \<^verbatim>\<open>for (k in obj)\<close> visits an array index before older keys.
\<close>

lemma watchPath_proto_twice:
  "snd (watchPath (scenario_fs\<lparr>watch := (\<lambda>p. Inr ())\<rparr>) ''__proto__''
     (snd (watchPath (scenario_fs\<lparr>watch := (\<lambda>p. Inr ())\<rparr>) ''__proto__'' init_state))) =
   \<lparr>watcherMap = [], proto = Some 1,
     watchers = [\<lparr>wpath = ''__proto__'', wstatus = Active\<rparr>,
                 \<lparr>wpath = ''__proto__'', wstatus = Active\<rparr>], console = []\<rparr>"
  by (simp add: watchPath_def call_hasOwnProperty_def setProperty_def hasOwnProperty_def
      init_state_def)

lemma for_in_keys_index_first:
  "for_in_keys [(''b'', 0 :: nat), (''10'', 1), (''9'', 2), (''07'', 3)] = [''9'', ''10'', ''b'', ''07'']"
  by (simp add: for_in_keys_def is_array_index_def is_digit_def decimal_def)

text \<open>
  C5, as stated, at a path that cannot be watched: nothing is at \<^verbatim>\<open>/tmp/d/b\<close>, so
  \<^verbatim>\<open>fs.watch\<close> throws in both calls, each call logs a warning, and after two
  calls in succession the registry holds no entry for the path, not one.
\<close>

theorem watchPath_twice_counterexample:
  "entries_for ''/tmp/d/b''
     (snd (watchPath scenario_fs ''/tmp/d/b''
        (snd (watchPath scenario_fs ''/tmp/d/b'' init_state)))) = [] \<and>
   length (entries_for ''/tmp/d/b''
     (snd (watchPath scenario_fs ''/tmp/d/b''
        (snd (watchPath scenario_fs ''/tmp/d/b'' init_state))))) \<noteq> 1"
  by (simp add: entries_for_def watchPath_def call_hasOwnProperty_def hasOwnProperty_def
      init_state_def scenario_fs_def)

text \<open>
  C5, amended: for every path \<open>p\<close> other than \<^verbatim>\<open>"hasOwnProperty"\<close> and \<^verbatim>\<open>"__proto__"\<close>,
  in a registry that holds no entry under \<^verbatim>\<open>"hasOwnProperty"\<close> (so for every absolute
  path in a registry of absolute paths): \<^verbatim>\<open>watchPath(p)\<close> on a path that is in the registry
  is a no-op, the state is what it was (no watcher is created, nothing is logged) and the
  call returns. After two calls in succession the registry holds exactly one entry for
  \<open>p\<close> when \<open>p\<close> was registered before or the watcher could be created in one of the
  calls, and none when it could be created in neither. No path ever has more than one
  entry.
\<close>

theorem watchPath_idempotent:
  assumes "distinct (map fst (watcherMap s))"
    and "\<not> hasOwnProperty (watcherMap s) ''hasOwnProperty''"
    and "p \<noteq> ''hasOwnProperty''" and "p \<noteq> ''__proto__''"
  shows "(hasOwnProperty (watcherMap s) p \<longrightarrow> watchPath os p s = (Inr (), s)) \<and>
         length (entries_for p (snd (watchPath os' p (snd (watchPath os p s))))) =
           (if hasOwnProperty (watcherMap s) p \<or> isFulfilled (watch os p) \<or>
               isFulfilled (watch os' p) then 1 else 0) \<and>
         (\<forall>q. length (entries_for q (snd (watchPath os p s))) \<le> 1)"
proof -
  have noop: "hasOwnProperty (watcherMap s) p \<longrightarrow> watchPath os p s = (Inr (), s)"
    using assms(2) by (simp add: watchPath_registered)
  have d1: "distinct (map fst (watcherMap (snd (watchPath os p s))))"
    using assms(1) by (rule distinct_watchPath)
  then have d2: "distinct (map fst (watcherMap (snd (watchPath os' p (snd (watchPath os p s))))))"
    by (rule distinct_watchPath)
  have u1: "\<not> hasOwnProperty (watcherMap (snd (watchPath os p s))) ''hasOwnProperty''"
    using assms(2,3) by (rule unshadowed_watchPath)
  have twice: "length (entries_for p (snd (watchPath os' p (snd (watchPath os p s))))) =
           (if hasOwnProperty (watcherMap s) p \<or> isFulfilled (watch os p) \<or>
               isFulfilled (watch os' p) then 1 else 0)"
    unfolding entries_for_def length_entries_distinct [OF d2]
    by (simp add: keys_watchPath [OF u1 assms(4)] keys_watchPath [OF assms(2) assms(4)]
        hasOwnProperty_def)
  have one: "\<forall>q. length (entries_for q (snd (watchPath os p s))) \<le> 1"
    unfolding entries_for_def length_entries_distinct [OF d1] by simp
  from noop twice one show ?thesis by blast
qed

theorem watchPath_idempotent_witness:
  "distinct (map fst (watcherMap watching_d)) \<and>
   \<not> hasOwnProperty (watcherMap watching_d) ''hasOwnProperty'' \<and>
   ''/tmp/d/'' \<noteq> ''hasOwnProperty'' \<and> ''/tmp/d/'' \<noteq> ''__proto__'' \<and>
   hasOwnProperty (watcherMap watching_d) ''/tmp/d/'' \<and>
   watchPath scenario_fs ''/tmp/d/'' watching_d = (Inr (), watching_d) \<and>
   length (entries_for ''/tmp/d/''
     (snd (watchPath scenario_fs ''/tmp/d/''
        (snd (watchPath scenario_fs ''/tmp/d/'' init_state))))) = 1"
proof -
  have d0: "distinct (map fst (watcherMap init_state))"
    and u0: "\<not> hasOwnProperty (watcherMap init_state) ''hasOwnProperty''"
    by (simp_all add: init_state_def hasOwnProperty_def)
  have d: "distinct (map fst (watcherMap watching_d))"
    and u: "\<not> hasOwnProperty (watcherMap watching_d) ''hasOwnProperty''"
    and h: "hasOwnProperty (watcherMap watching_d) ''/tmp/d/''"
    by (simp_all add: watching_d_eq hasOwnProperty_def)
  have n1: "''/tmp/d/'' \<noteq> ''hasOwnProperty''" and n2: "''/tmp/d/'' \<noteq> ''__proto__''"
    by simp_all
  have ok: "isFulfilled (watch scenario_fs ''/tmp/d/'')"
    by (simp add: isFulfilled_def scenario_fs_def)
  from watchPath_idempotent [OF d u n1 n2, of scenario_fs scenario_fs]
    watchPath_idempotent [OF d0 u0 n1 n2, of scenario_fs scenario_fs] d u h ok
  show ?thesis by simp
qed

text \<open>What \<open>unwatchPath\<close> does where the read finds nothing, and where it finds an entry.\<close>

lemma unwatchPath_nothing_read:
  "getProperty os s p = Undefined \<Longrightarrow> unwatchPath os p s = (Inr (), s)"
  by (simp add: unwatchPath_def)

lemma unwatchPath_plain_unregistered:
  "\<not> hasOwnProperty (watcherMap s) p \<Longrightarrow> proto s = None \<Longrightarrow>
   p \<notin> set Object_prototype_names \<Longrightarrow> unwatchPath os p s = (Inr (), s)"
  by (simp add: unwatchPath_def getProperty_def hasOwnProperty_map_of)

lemma unwatchPath_registered:
  assumes "map_of (watcherMap s) p = Some w"
  shows "fst (unwatchPath os p s) = Inr ()"
    and "watcherMap (snd (unwatchPath os p s)) = AList.delete p (watcherMap s)"
    and "\<not> hasOwnProperty (watcherMap (snd (unwatchPath os p s))) p"
    and "watcher_close os w = Some err \<Longrightarrow>
           unwatchPath os p s =
             (Inr (), s\<lparr>console := console s @
                           [Warn (''Failed to unwatch file '' @ p @ '': '' @ message err)],
                         watcherMap := AList.delete p (watcherMap s)\<rparr>)"
    and "watcher_close os w = None \<Longrightarrow>
           unwatchPath os p s =
             (Inr (), s\<lparr>watchers := (watchers s)[w := (watchers s ! w)\<lparr>wstatus := Closed\<rparr>],
                         watcherMap := AList.delete p (watcherMap s)\<rparr>)"
proof -
  show "fst (unwatchPath os p s) = Inr ()"
    by (rule fst_unwatchPath)
  show "watcherMap (snd (unwatchPath os p s)) = AList.delete p (watcherMap s)"
    by (rule watcherMap_unwatchPath)
  show "\<not> hasOwnProperty (watcherMap (snd (unwatchPath os p s))) p"
    by (simp add: watcherMap_unwatchPath hasOwnProperty_delete)
  show "watcher_close os w = Some err \<Longrightarrow>
           unwatchPath os p s =
             (Inr (), s\<lparr>console := console s @
                           [Warn (''Failed to unwatch file '' @ p @ '': '' @ message err)],
                         watcherMap := AList.delete p (watcherMap s)\<rparr>)"
    using assms by (simp add: unwatchPath_def getProperty_own)
  show "watcher_close os w = None \<Longrightarrow>
           unwatchPath os p s =
             (Inr (), s\<lparr>watchers := (watchers s)[w := (watchers s ! w)\<lparr>wstatus := Closed\<rparr>],
                         watcherMap := AList.delete p (watcherMap s)\<rparr>)"
    using assms by (simp add: unwatchPath_def getProperty_own)
qed

text \<open>
  C6 does not hold of the code: \<^verbatim>\<open>unwatchPath("toString")\<close> on the empty registry, where
  the path has never been watched, is not a no-op. The test of line 79 is on the value of
  \<^verbatim>\<open>_watcherMap[path]\<close>, which for this path is the function that every object inherits;
  the function has no \<^verbatim>\<open>close\<close>, the call throws inside the \<^verbatim>\<open>try\<close>, and a warning
  that the path could not be unwatched is logged. (\<^verbatim>\<open>watchPath\<close> asks
  \<^verbatim>\<open>hasOwnProperty\<close> instead.) The call still returns and the registry is unchanged.
\<close>

theorem unwatchPath_warns_on_inherited_name:
  "\<not> hasOwnProperty (watcherMap init_state) ''toString'' \<and>
   unwatchPath scenario_fs ''toString'' init_state =
     (Inr (), \<lparr>watcherMap = [], proto = None, watchers = [],
                console = [Warn ''Failed to unwatch file toString: watcher.close is not a function'']\<rparr>)"
  by (simp add: unwatchPath_def getProperty_def Object_prototype_names_def not_a_function_def
      hasOwnProperty_def init_state_def)

text \<open>\<open>unwatchAll\<close> where no entry shadows \<^verbatim>\<open>hasOwnProperty\<close>.\<close>

lemma unwatchAll_loop_unshadowed:
  "\<not> hasOwnProperty (watcherMap s) ''hasOwnProperty'' \<Longrightarrow>
     fst (unwatchAll_loop os paths s) = Inr () \<and>
     watcherMap (snd (unwatchAll_loop os paths s)) =
       filter (\<lambda>entry. fst entry \<notin> set paths) (watcherMap s)"
proof (induction paths arbitrary: s)
  case Nil
  show ?case by simp
next
  case (Cons path paths)
  show ?case
  proof (cases "hasOwnProperty (watcherMap s) path")
    case False
    then have "filter (\<lambda>entry. fst entry \<notin> set (path # paths)) (watcherMap s) =
               filter (\<lambda>entry. fst entry \<notin> set paths) (watcherMap s)"
      by (auto simp: hasOwnProperty_def intro!: filter_cong)
    with False Cons.IH [OF Cons.prems] show ?thesis by simp
  next
    case True
    obtain r s' where u: "unwatchPath os path s = (r, s')"
      by (cases "unwatchPath os path s")
    with fst_unwatchPath [of os path s] have r: "r = Inr ()" by simp
    from u watcherMap_unwatchPath [of os path s]
    have m: "watcherMap s' = AList.delete path (watcherMap s)" by simp
    with Cons.prems have "\<not> hasOwnProperty (watcherMap s') ''hasOwnProperty''"
      by (simp add: hasOwnProperty_delete_other)
    from Cons.IH [OF this] True Cons.prems u r show ?thesis
      by (auto simp: call_hasOwnProperty_def m AList.delete_eq case_prod_unfold
          intro!: filter_cong)
  qed
qed

lemma unwatchAll_unshadowed:
  assumes "\<not> hasOwnProperty (watcherMap s) ''hasOwnProperty''"
  shows "fst (unwatchAll os s) = Inr ()" and "watcherMap (snd (unwatchAll os s)) = []"
  using unwatchAll_loop_unshadowed [OF assms, of os "for_in_keys (watcherMap s)"]
  by (simp_all add: unwatchAll_def set_for_in_keys)

text \<open>
  C7 does not hold of the code: after \<^verbatim>\<open>watchPath("hasOwnProperty")\<close> has registered a
  watcher for the file of that name in the working directory, \<^verbatim>\<open>unwatchAll()\<close> throws a
  \<^verbatim>\<open>TypeError\<close> at its first key, because line 125 calls the watcher stored under
  \<^verbatim>\<open>"hasOwnProperty"\<close> as a function; the registry keeps its entry.
\<close>

theorem unwatchAll_throws_when_shadowed:
  "watching_shadow =
     \<lparr>watcherMap = [(''hasOwnProperty'', 0)], proto = None,
      watchers = [\<lparr>wpath = ''hasOwnProperty'', wstatus = Active\<rparr>], console = []\<rparr> \<and>
   unwatchAll cwd_fs watching_shadow =
     (Inl (TypeError ''_watcherMap.hasOwnProperty is not a function''), watching_shadow)"
  by (simp add: watching_shadow_eq unwatchAll_def for_in_keys_def is_array_index_def
      is_digit_def call_hasOwnProperty_def hasOwnProperty_def not_a_function_def)

text \<open>The commands where no entry shadows \<^verbatim>\<open>hasOwnProperty\<close>: all three return.\<close>

lemma watch_commands_unshadowed:
  assumes "\<not> hasOwnProperty (watcherMap s) ''hasOwnProperty''"
  shows "fst (watchPath os p s) = Inr ()"
    and "fst (unwatchPath os p s) = Inr ()"
    and "fst (unwatchAll os s) = Inr ()"
  using assms
  by (simp_all add: fst_unwatchPath unwatchAll_unshadowed watchPath_def call_hasOwnProperty_def
      Let_def split: sum.splits bool.splits)

text \<open>
  C9 does not hold of the code: in the registry that \<^verbatim>\<open>watchPath("hasOwnProperty")\<close>
  leaves, \<^verbatim>\<open>watchPath("/tmp/d/")\<close>, for a directory that can be watched, throws a
  \<^verbatim>\<open>TypeError\<close> to its caller: the call of line 97 finds the watcher stored under
  \<^verbatim>\<open>"hasOwnProperty"\<close>, and it stands before the \<^verbatim>\<open>try\<close>.
\<close>

theorem watchPath_throws_when_shadowed:
  "watching_shadow = snd (watchPath cwd_fs ''hasOwnProperty'' init_state) \<and>
   watch cwd_fs ''/tmp/d/'' = Inr () \<and>
   watchPath cwd_fs ''/tmp/d/'' watching_shadow =
     (Inl (TypeError ''_watcherMap.hasOwnProperty is not a function''), watching_shadow)"
proof (intro conjI)
  show "watching_shadow = snd (watchPath cwd_fs ''hasOwnProperty'' init_state)"
    by (rule watching_shadow_def)
  show "watch cwd_fs ''/tmp/d/'' = Inr ()"
    by (simp add: cwd_fs_def scenario_fs_def)
  show "watchPath cwd_fs ''/tmp/d/'' watching_shadow =
     (Inl (TypeError ''_watcherMap.hasOwnProperty is not a function''), watching_shadow)"
    by (simp add: watching_shadow_eq watchPath_def call_hasOwnProperty_def hasOwnProperty_def
        not_a_function_def)
qed

lemma watcherError_active:
  assumes "w < length (watchers s)" "watchers s ! w = \<lparr>wpath = p, wstatus = Active\<rparr>"
  shows "watcherError os w err s =
           unwatchPath os p
             (s\<lparr>watchers := (watchers s)[w := (watchers s ! w)\<lparr>wstatus := Errored\<rparr>],
                console := console s @
                  [ErrorLine (''Error watching file '' @ p @ '': '' @ message err)]\<rparr>)"
  using assms by (simp add: watcherError_def Let_def)

text \<open>
  C8: when a watcher that was created for \<open>p\<close> and is still active emits \<^verbatim>\<open>"error"\<close>,
  the registry is left as \<^verbatim>\<open>unwatchPath(p)\<close> leaves it, without an entry for \<open>p\<close>, and
  the watcher is no longer active. Every step (a command or an error event) keeps the
  registry consistent, so in every state reached from the initial one each registered
  entry holds a watcher that was created for its path and is active.
\<close>

theorem registry_no_dangling:
  "consistent (run es init_state) \<and>
   (\<forall>path v. map_of (watcherMap (run es init_state)) path = Some v \<longrightarrow>
      v < length (watchers (run es init_state)) \<and>
      watchers (run es init_state) ! v = \<lparr>wpath = path, wstatus = Active\<rparr>) \<and>
   (consistent s \<longrightarrow> consistent (snd (step os e s))) \<and>
   (w < length (watchers s) \<and> watchers s ! w = \<lparr>wpath = p, wstatus = Active\<rparr> \<longrightarrow>
      fst (watcherError os w err s) = Inr () \<and>
      watcherMap (snd (watcherError os w err s)) = watcherMap (snd (unwatchPath os p s)) \<and>
      \<not> hasOwnProperty (watcherMap (snd (watcherError os w err s))) p \<and>
      wstatus (watchers (snd (watcherError os w err s)) ! w) \<noteq> Active)"
proof (intro conjI)
  show reach: "consistent (run es init_state)"
    using consistent_init by (rule consistent_run)
  show "\<forall>path v. map_of (watcherMap (run es init_state)) path = Some v \<longrightarrow>
      v < length (watchers (run es init_state)) \<and>
      watchers (run es init_state) ! v = \<lparr>wpath = path, wstatus = Active\<rparr>"
    using consistent_entry [OF reach] by (blast dest: map_of_SomeD)
  show "consistent s \<longrightarrow> consistent (snd (step os e s))"
    by (simp add: consistent_step)
  show "w < length (watchers s) \<and> watchers s ! w = \<lparr>wpath = p, wstatus = Active\<rparr> \<longrightarrow>
      fst (watcherError os w err s) = Inr () \<and>
      watcherMap (snd (watcherError os w err s)) = watcherMap (snd (unwatchPath os p s)) \<and>
      \<not> hasOwnProperty (watcherMap (snd (watcherError os w err s))) p \<and>
      wstatus (watchers (snd (watcherError os w err s)) ! w) \<noteq> Active"
  proof
    assume a: "w < length (watchers s) \<and> watchers s ! w = \<lparr>wpath = p, wstatus = Active\<rparr>"
    then have eq: "watcherError os w err s =
           unwatchPath os p
             (s\<lparr>watchers := (watchers s)[w := (watchers s ! w)\<lparr>wstatus := Errored\<rparr>],
                console := console s @
                  [ErrorLine (''Error watching file '' @ p @ '': '' @ message err)]\<rparr>)"
      by (simp add: watcherError_active)
    have st: "wstatus (watchers (snd (watcherError os w err s)) ! w) \<noteq> Active"
      unfolding eq using a by (intro wstatus_unwatchPath) simp_all
    show "fst (watcherError os w err s) = Inr () \<and>
      watcherMap (snd (watcherError os w err s)) = watcherMap (snd (unwatchPath os p s)) \<and>
      \<not> hasOwnProperty (watcherMap (snd (watcherError os w err s))) p \<and>
      wstatus (watchers (snd (watcherError os w err s)) ! w) \<noteq> Active"
      using st by (simp add: eq fst_unwatchPath watcherMap_unwatchPath hasOwnProperty_delete)
  qed
qed

theorem registry_no_dangling_witness:
  "run [(scenario_fs, WatchPath ''/tmp/d/''), (scenario_fs, WatchPath ''/tmp/d/a''),
        (scenario_fs, WatcherError 0 (Error ''EPERM''))] init_state =
     \<lparr>watcherMap = [(''/tmp/d/a'', 1)], proto = None,
      watchers = [\<lparr>wpath = ''/tmp/d/'', wstatus = Closed\<rparr>,
                  \<lparr>wpath = ''/tmp/d/a'', wstatus = Active\<rparr>],
      console = [ErrorLine ''Error watching file /tmp/d/: EPERM'']\<rparr> \<and>
   consistent
     \<lparr>watcherMap = [(''/tmp/d/a'', 1)], proto = None,
      watchers = [\<lparr>wpath = ''/tmp/d/'', wstatus = Closed\<rparr>,
                  \<lparr>wpath = ''/tmp/d/a'', wstatus = Active\<rparr>],
      console = [ErrorLine ''Error watching file /tmp/d/: EPERM'']\<rparr> \<and>
   consistent watching_two \<and>
   watchers watching_two ! 0 = \<lparr>wpath = ''/tmp/d/'', wstatus = Active\<rparr> \<and>
   consistent (snd (step scenario_fs (WatcherError 0 (Error ''EPERM'')) watching_two)) \<and>
   \<not> hasOwnProperty
       (watcherMap (snd (watcherError scenario_fs 0 (Error ''EPERM'') watching_two))) ''/tmp/d/''"
proof -
  let ?es = "[(scenario_fs, WatchPath ''/tmp/d/''), (scenario_fs, WatchPath ''/tmp/d/a''),
              (scenario_fs, WatcherError 0 (Error ''EPERM''))]"
  have r: "run ?es init_state =
     \<lparr>watcherMap = [(''/tmp/d/a'', 1)], proto = None,
      watchers = [\<lparr>wpath = ''/tmp/d/'', wstatus = Closed\<rparr>,
                  \<lparr>wpath = ''/tmp/d/a'', wstatus = Active\<rparr>],
      console = [ErrorLine ''Error watching file /tmp/d/: EPERM'']\<rparr>"
    by (simp add: watchPath_def call_hasOwnProperty_def setProperty_def watcherError_def
        unwatchPath_def getProperty_def hasOwnProperty_def init_state_def scenario_fs_def)
  have two: "consistent watching_two"
    by (simp add: watching_two_eq consistent_def)
  have w0: "watchers watching_two ! 0 = \<lparr>wpath = ''/tmp/d/'', wstatus = Active\<rparr>"
    by (simp add: watching_two_eq)
  have len: "0 < length (watchers watching_two)"
    by (simp add: watching_two_eq)
  from registry_no_dangling [of ?es watching_two scenario_fs "WatcherError 0 (Error ''EPERM'')"
      0 "''/tmp/d/''" "Error ''EPERM''"] r two w0 len
  show ?thesis
    by (simp add: watching_two_eq unwatchPath_def getProperty_def hasOwnProperty_def
        scenario_fs_def)
qed

text \<open>
  C10: for distinct paths \<open>p\<close> and \<open>q\<close>, neither \<^verbatim>\<open>unwatchPath(p)\<close> nor
  \<^verbatim>\<open>watchPath(p)\<close> changes what the registry holds for \<open>q\<close>: the same watcher, or
  nothing. In a consistent registry the watcher registered for \<open>q\<close> is itself unchanged.
\<close>

theorem registry_frame:
  assumes "p \<noteq> q"
  shows "map_of (watcherMap (snd (unwatchPath os p s))) q = map_of (watcherMap s) q \<and>
         map_of (watcherMap (snd (watchPath os p s))) q = map_of (watcherMap s) q \<and>
         (consistent s \<longrightarrow>
            (\<forall>w. map_of (watcherMap s) q = Some w \<longrightarrow>
               watchers (snd (unwatchPath os p s)) ! w = watchers s ! w \<and>
               watchers (snd (watchPath os p s)) ! w = watchers s ! w))"
proof (intro conjI impI allI)
  from assms show "map_of (watcherMap (snd (unwatchPath os p s))) q = map_of (watcherMap s) q"
    by (simp add: watcherMap_unwatchPath)
  from assms show "map_of (watcherMap (snd (watchPath os p s))) q = map_of (watcherMap s) q"
    by (simp add: watcherMap_watchPath update_conv')
next
  fix w
  assume c: "consistent s" and q: "map_of (watcherMap s) q = Some w"
  from q have in_q: "(q, w) \<in> set (watcherMap s)" by (rule map_of_SomeD)
  have "u \<noteq> w" if "getProperty os s p = Watcher u" for u
  proof -
    from getProperty_Watcher [OF that]
    consider "map_of (watcherMap s) p = Some u" | "proto s = Some u"
      by auto
    then show ?thesis
    proof cases
      case 1
      then have "(p, u) \<in> set (watcherMap s)" by (rule map_of_SomeD)
      with consistent_inj [OF c in_q] assms show ?thesis by blast
    next
      case 2
      from consistent_proto [OF c 2, of q] in_q show ?thesis by blast
    qed
  qed
  then show "watchers (snd (unwatchPath os p s)) ! w = watchers s ! w"
    by (rule watchers_unwatchPath)
  from consistent_entry [OF c in_q] have "w < length (watchers s)" by simp
  then show "watchers (snd (watchPath os p s)) ! w = watchers s ! w"
    by (cases os p s rule: watchPath_cases) (simp_all add: setProperty_def nth_append)
qed

theorem registry_frame_witness:
  "''/tmp/d/'' \<noteq> ''/tmp/d/a'' \<and> consistent watching_two \<and>
   map_of (watcherMap watching_two) ''/tmp/d/a'' = Some 1 \<and>
   map_of (watcherMap (snd (unwatchPath scenario_fs ''/tmp/d/'' watching_two))) ''/tmp/d/a'' = Some 1 \<and>
   watchers (snd (unwatchPath scenario_fs ''/tmp/d/'' watching_two)) ! 1 =
     \<lparr>wpath = ''/tmp/d/a'', wstatus = Active\<rparr> \<and>
   map_of (watcherMap (snd (watchPath scenario_fs ''/tmp/d/'' watching_two))) ''/tmp/d/a'' = Some 1"
proof -
  have ne: "''/tmp/d/'' \<noteq> ''/tmp/d/a''" by simp
  have two: "consistent watching_two"
    by (simp add: watching_two_eq consistent_def)
  have q: "map_of (watcherMap watching_two) ''/tmp/d/a'' = Some 1"
    by (simp add: watching_two_eq)
  have w1: "watchers watching_two ! 1 = \<lparr>wpath = ''/tmp/d/a'', wstatus = Active\<rparr>"
    by (simp add: watching_two_eq)
  from registry_frame [OF ne, of scenario_fs watching_two] two q w1 ne
  show ?thesis by simp
qed

end
